theory Spec2Isabelle
  imports Complex_Main
begin

section \<open>Characters and strings\<close>

text \<open>
  A Python \<open>str\<close> is a sequence of code points. The model uses HOL's \<open>string\<close>, a list of
  8-bit characters, read as the code points 0..255; the character predicates below are
  Python's on that range (the Unicode categories of the Basic Latin and Latin-1 blocks).
\<close>

definition ord :: "char \<Rightarrow> nat" where
  "ord c = of_char c"

definition isspace :: "char \<Rightarrow> bool" where
  \<comment> \<open>\<open>str.isspace\<close>: TAB..CR, FS..US, SPACE, NEL, NBSP\<close>
  "isspace c = (let n = ord c in
     (9 \<le> n \<and> n \<le> 13) \<or> (28 \<le> n \<and> n \<le> 32) \<or> n = 133 \<or> n = 160)"

definition isalpha :: "char \<Rightarrow> bool" where
  \<comment> \<open>\<open>str.isalpha\<close>: general category L*\<close>
  "isalpha c = (let n = ord c in
     (65 \<le> n \<and> n \<le> 90) \<or> (97 \<le> n \<and> n \<le> 122) \<or> n = 170 \<or> n = 181 \<or> n = 186 \<or>
     (192 \<le> n \<and> n \<le> 214) \<or> (216 \<le> n \<and> n \<le> 246) \<or> (248 \<le> n \<and> n \<le> 255))"

definition isdigit :: "char \<Rightarrow> bool" where
  \<comment> \<open>\<open>str.isdigit\<close>: 0..9 and the superscripts 2, 3, 1\<close>
  "isdigit c = (let n = ord c in (48 \<le> n \<and> n \<le> 57) \<or> n = 178 \<or> n = 179 \<or> n = 185)"

definition isnumeric :: "char \<Rightarrow> bool" where
  \<comment> \<open>\<open>str.isnumeric\<close>: the digits and the fractions 1/4, 1/2, 3/4\<close>
  "isnumeric c = (let n = ord c in isdigit c \<or> (188 \<le> n \<and> n \<le> 190))"

definition isalnum :: "char \<Rightarrow> bool" where
  "isalnum c = (isalpha c \<or> isdigit c \<or> isnumeric c)"

definition str_isalnum :: "string \<Rightarrow> bool" where
  \<comment> \<open>\<open>s.isalnum()\<close>: every character is alphanumeric and there is at least one\<close>
  "str_isalnum s = (s \<noteq> [] \<and> list_all isalnum s)"

definition lower_char :: "char \<Rightarrow> char" where
  \<comment> \<open>the upper-case letters A..Z, U+00C0..U+00D6 and U+00D8..U+00DE map 32 places up\<close>
  "lower_char c = (let n = ord c in
     if (65 \<le> n \<and> n \<le> 90) \<or> (192 \<le> n \<and> n \<le> 214) \<or> (216 \<le> n \<and> n \<le> 222)
     then char_of (n + 32) else c)"

definition lower :: "string \<Rightarrow> string" where
  "lower s = map lower_char s"

definition strip :: "string \<Rightarrow> string" where
  "strip s = rev (dropWhile isspace (rev (dropWhile isspace s)))"

definition startswith :: "string \<Rightarrow> string \<Rightarrow> bool" where
  "startswith s p = (take (length p) s = p)"

definition remove_hyphens :: "string \<Rightarrow> string" where
  \<comment> \<open>\<open>name.replace('-', '')\<close>\<close>
  "remove_hyphens s = filter (\<lambda>c. c \<noteq> CHR ''-'') s"


section \<open>Exceptions, exit codes and standard output\<close>

datatype exn = IndexError | ValueError

datatype outcome =
    Exit nat        \<comment> \<open>\<open>sys.exit(n)\<close>\<close>
  | Returned        \<comment> \<open>\<open>main\<close> returned\<close>
  | Uncaught exn    \<comment> \<open>an exception left \<open>main\<close>: traceback\<close>

fun exit_status :: "outcome \<Rightarrow> nat" where
  "exit_status (Exit n) = n"
| "exit_status Returned = 0"
| "exit_status (Uncaught e) = 1"

datatype verdict = TAKEN | AVAILABLE

text \<open>One constructor per \<open>print\<close> call of the script, with the interpolated values as arguments.\<close>

datatype line =
    Banner                              \<comment> \<open>\<open>[*] GCP Project ID Availability Checker\<close>\<close>
  | AuthHint                            \<comment> \<open>\<open>[*] Make sure you have authenticated with: ...\<close>\<close>
  | Blank
  | ClientInitFailed string             \<comment> \<open>\<open>[-] Failed to initialize GCP client: {e}\<close>\<close>
  | RunLoginHint                        \<comment> \<open>\<open>Run: gcloud auth application-default login\<close>\<close>
  | Loaded nat string                   \<comment> \<open>\<open>[+] Loaded {len(names)} project name(s) from '{filename}'\<close>\<close>
  | FileNotFound string                 \<comment> \<open>\<open>[-] Error: File '{filename}' not found.\<close>\<close>
  | ReadError string                    \<comment> \<open>\<open>[-] Error reading file: {e}\<close>\<close>
  | NoNames                             \<comment> \<open>\<open>[-] No project names to check.\<close>\<close>
  | Checking nat                        \<comment> \<open>\<open>[*] Checking {len(project_names)} project ID(s)...\<close>\<close>
  | InvalidLine nat nat string          \<comment> \<open>\<open>[{i}/{n}] INVALID: {name} (does not meet GCP naming rules)\<close>\<close>
  | StatusLine nat nat string verdict   \<comment> \<open>\<open>[{i}/{n}] {emoji} {name.lower():30} -> {status}\<close>\<close>
  | Unexpected string string            \<comment> \<open>\<open>[!] Unexpected error checking '{project_id}': {e}\<close>\<close>
  | Rule                                \<comment> \<open>fifty \<open>=\<close> signs\<close>
  | SummaryTitle                        \<comment> \<open>\<open>SUMMARY\<close>\<close>
  | TotalChecked nat                    \<comment> \<open>\<open>Total checked : {len(project_names)}\<close>\<close>
  | AvailableCount nat                  \<comment> \<open>\<open>Available     : {len(available)}\<close>\<close>
  | TakenCount nat                      \<comment> \<open>\<open>Taken         : {len(taken)}\<close>\<close>
  | AvailableHeader                     \<comment> \<open>\<open>AVAILABLE PROJECT IDs:\<close>\<close>
  | AvailableItem string                \<comment> \<open>one bullet per available identifier\<close>
  | NoneAvailable                       \<comment> \<open>\<open>No available project IDs found.\<close>\<close>


section \<open>The environment of a run\<close>

text \<open>
  What the script reads from outside: the file system as seen by \<open>open\<close>, the constructor
  of the resource-manager client, and the remote service behind \<open>client.get_project\<close>.
  The service has a state of its own (type \<open>'w\<close>), so two lookups of one name may differ.
\<close>

datatype file_result =
    FileNotFoundError         \<comment> \<open>\<open>open\<close> raised FileNotFoundError\<close>
  | OtherError string         \<comment> \<open>any other exception while opening or reading, with \<open>str(e)\<close>\<close>
  | FileText string           \<comment> \<open>the decoded text of the file\<close>

datatype lookup =
    Found                      \<comment> \<open>\<open>get_project\<close> returned\<close>
  | Raised "int option" string \<comment> \<open>it raised: \<open>e.status\<close> when \<open>hasattr(e, 'status')\<close>, and \<open>str(e)\<close>\<close>

record 'w env =
  client_init :: "string option"  \<comment> \<open>\<open>Some e\<close>: \<open>ProjectsClient()\<close> raised \<open>e\<close>\<close>
  files :: "string \<Rightarrow> file_result"
  get_project :: "'w \<Rightarrow> string \<Rightarrow> lookup \<times> 'w"

text \<open>
  The parsed command line, as \<open>parse_args\<close> returns it. The delay is a float; the model
  has the finite ones, each a rational number of seconds.
\<close>

record args =
  wordlist :: string
  delay :: rat

definition DEFAULT_WORDLIST :: string where
  "DEFAULT_WORDLIST = ''project-names.txt''"

definition default_args :: args where
  "default_args = \<lparr>wordlist = DEFAULT_WORDLIST, delay = 2 / 10\<rparr>"

text \<open>
  The state of a run: the remote service, the requests sent to it so far (a trace kept for
  the proofs), the lines printed, and the two accumulators of \<open>main\<close>.
\<close>

record 'w run =
  world :: 'w
  requests :: "string list"
  stdout :: "line list"
  available :: "string list"
  taken :: "string list"

definition print :: "line \<Rightarrow> 'w run \<Rightarrow> 'w run" where
  "print l st = st\<lparr>stdout := stdout st @ [l]\<rparr>"

definition time_sleep :: "rat \<Rightarrow> exn + unit" where
  \<comment> \<open>\<open>time.sleep(secs)\<close> raises ValueError for a negative number of seconds; otherwise it
      pauses and returns (delays beyond the range of the platform timer are not modelled)\<close>
  "time_sleep secs = (if secs < 0 then Inl ValueError else Inr ())"


section \<open>The wordlist loader\<close>

text \<open>
  The file is opened in text mode with universal newlines: \<open>\r\n\<close> and a lone \<open>\r\<close> are read
  as \<open>\n\<close>, and iterating over the file yields the lines with their terminator.
\<close>

fun translate_newlines :: "string \<Rightarrow> string" where
  "translate_newlines [] = []"
| "translate_newlines (c # cs) =
     (if c = CHR 0x0D then
        (case cs of
           [] \<Rightarrow> [CHR 0x0A]
         | d # ds \<Rightarrow> if d = CHR 0x0A then CHR 0x0A # translate_newlines ds
                     else CHR 0x0A # translate_newlines cs)
      else c # translate_newlines cs)"

fun split_lines :: "string \<Rightarrow> string list" where
  "split_lines [] = []"
| "split_lines (c # cs) =
     (if c = CHR 0x0A then [c] # split_lines cs
      else (case split_lines cs of [] \<Rightarrow> [[c]] | l # ls \<Rightarrow> (c # l) # ls))"

definition file_lines :: "string \<Rightarrow> string list" where
  "file_lines text = split_lines (translate_newlines text)"

definition read_project_names ::
  "(string \<Rightarrow> file_result) \<Rightarrow> string \<Rightarrow> 'w run \<Rightarrow> (nat + string list) \<times> 'w run" where
  \<comment> \<open>\<open>Inl n\<close> is \<open>sys.exit(n)\<close>\<close>
  "read_project_names fs filename st =
     (case fs filename of
        FileText text \<Rightarrow>
          (let names = [strip line. line \<leftarrow> file_lines text,
                          strip line \<noteq> [] \<and> \<not> startswith (strip line) ''#'']
           in (Inr names, print (Loaded (length names) filename) st))
      | FileNotFoundError \<Rightarrow> (Inl 1, print (FileNotFound filename) st)
      | OtherError e \<Rightarrow> (Inl 1, print (ReadError e) st))"


section \<open>The naming rule\<close>

definition getitem0 :: "string \<Rightarrow> exn + char" where
  \<comment> \<open>\<open>name[0]\<close>\<close>
  "getitem0 s = (case s of [] \<Rightarrow> Inl IndexError | c # _ \<Rightarrow> Inr c)"

definition naming_rule :: "string \<Rightarrow> exn + bool" where
  \<comment> \<open>\<open>6 <= len(name) <= 30 and name.replace('-', '').isalnum() and name[0].isalpha()\<close>,
      evaluated left to right, each \<open>and\<close> stopping at the first false operand\<close>
  "naming_rule name =
     (if \<not> (6 \<le> length name \<and> length name \<le> 30) then Inr False
      else if \<not> str_isalnum (remove_hyphens name) then Inr False
      else (case getitem0 name of Inl e \<Rightarrow> Inl e | Inr c \<Rightarrow> Inr (isalpha c)))"

definition rule_as_specified :: "string \<Rightarrow> bool" where
  \<comment> \<open>the rule in the words of the specification: the three conditions, with no order of
      evaluation\<close>
  "rule_as_specified s =
     ((6 \<le> length s \<and> length s \<le> 30) \<and>
      str_isalnum (remove_hyphens s) \<and>
      (case s of [] \<Rightarrow> False | c # _ \<Rightarrow> isalpha c))"


section \<open>The existence checker\<close>

definition project_exists ::
  "('w \<Rightarrow> string \<Rightarrow> lookup \<times> 'w) \<Rightarrow> string \<Rightarrow> 'w run \<Rightarrow> bool \<times> 'w run" where
  "project_exists client project_id st =
     (let req = ''projects/'' @ project_id;
          (r, w) = client (world st) req;
          st' = st\<lparr>world := w, requests := requests st @ [req]\<rparr>
      in case r of
           Found \<Rightarrow> (True, st')
         | Raised status e \<Rightarrow>
             if (case status of None \<Rightarrow> False | Some s \<Rightarrow> s = 404 \<or> s = 403)
             then (False, st')
             else (False, print (Unexpected project_id e) st'))"


section \<open>The batch runner\<close>

fun check_names ::
  "('w \<Rightarrow> string \<Rightarrow> lookup \<times> 'w) \<Rightarrow> rat \<Rightarrow> nat \<Rightarrow> nat \<Rightarrow> string list \<Rightarrow> 'w run
     \<Rightarrow> exn option \<times> 'w run" where
  \<comment> \<open>the \<open>for i, name in enumerate(project_names, 1)\<close> loop; \<open>Some e\<close>: \<open>e\<close> was raised\<close>
  "check_names client secs n i [] st = (None, st)"
| "check_names client secs n i (name # rest) st =
     (case naming_rule name of
        Inl e \<Rightarrow> (Some e, st)
      | Inr False \<Rightarrow> check_names client secs n (Suc i) rest (print (InvalidLine i n name) st)
      | Inr True \<Rightarrow>
          (case project_exists client (lower name) st of
             (exists, st1) \<Rightarrow>
               (let st2 = print (StatusLine i n (lower name) (if exists then TAKEN else AVAILABLE)) st1;
                    st3 = (if \<not> exists then st2\<lparr>available := available st2 @ [lower name]\<rparr>
                           else st2\<lparr>taken := taken st2 @ [lower name]\<rparr>)
                in case time_sleep secs of
                     Inl e \<Rightarrow> (Some e, st3)
                   | Inr _ \<Rightarrow> check_names client secs n (Suc i) rest st3)))"

definition print_all :: "line list \<Rightarrow> 'w run \<Rightarrow> 'w run" where
  "print_all ls st = fold print ls st"

definition summary :: "nat \<Rightarrow> 'w run \<Rightarrow> 'w run" where
  "summary n st =
     (let st1 = print_all [Rule, SummaryTitle, Rule, TotalChecked n,
                           AvailableCount (length (available st)),
                           TakenCount (length (taken st))] st;
          st2 = (if available st1 \<noteq> []
                 then print_all (map AvailableItem (available st1)) (print AvailableHeader st1)
                 else st1)
      in if available st2 = [] then print NoneAvailable st2 else st2)"

definition init_run :: "'w \<Rightarrow> 'w run" where
  "init_run w = \<lparr>world = w, requests = [], stdout = [], available = [], taken = []\<rparr>"

definition main :: "args \<Rightarrow> 'w env \<Rightarrow> 'w \<Rightarrow> outcome \<times> 'w run" where
  "main a env w =
     (let st1 = print_all [Banner, AuthHint, Blank] (init_run w)
      in case client_init env of
           Some e \<Rightarrow> (Exit 1, print_all [ClientInitFailed e, RunLoginHint] st1)
         | None \<Rightarrow>
             (case read_project_names (files env) (wordlist a) st1 of
                (Inl code, st2) \<Rightarrow> (Exit code, st2)
              | (Inr project_names, st2) \<Rightarrow>
                  if project_names = [] then (Exit 0, print NoNames st2)
                  else
                    (case check_names (get_project env) (delay a) (length project_names) 1
                            project_names (print (Checking (length project_names)) st2) of
                       (Some e, st3) \<Rightarrow> (Uncaught e, st3)
                     | (None, st3) \<Rightarrow> (Returned, summary (length project_names) st3))))"


section \<open>Reading a run\<close>

text \<open>
  Notions used to state the properties of a run: the candidates a wordlist holds, whether a
  candidate passes the naming rule, the request sent for it, and the classification that a
  printed line gives to a candidate.
\<close>

definition loaded_names :: "(string \<Rightarrow> file_result) \<Rightarrow> string \<Rightarrow> string list" where
  \<comment> \<open>what \<open>read_project_names\<close> returns to \<open>main\<close>; nothing when it exits instead\<close>
  "loaded_names fs filename =
     (case fst (read_project_names fs filename (init_run ())) of
        Inl code \<Rightarrow> []
      | Inr names \<Rightarrow> names)"

definition candidates :: "'w env \<Rightarrow> args \<Rightarrow> string list" where
  \<comment> \<open>the candidates that a run loads: \<open>main\<close> calls the loader once the client is constructed\<close>
  "candidates env a =
     (case client_init env of
        Some e \<Rightarrow> []
      | None \<Rightarrow> loaded_names (files env) (wordlist a))"

definition passes :: "string \<Rightarrow> bool" where
  "passes name = (naming_rule name = Inr True)"

definition request_for :: "string \<Rightarrow> string" where
  \<comment> \<open>the argument of \<open>get_project\<close> for a candidate: built from its lower-cased form\<close>
  "request_for name = ''projects/'' @ lower name"


datatype classification = Invalid | Available | Taken

fun classified :: "line \<Rightarrow> (string \<times> classification) option" where
  "classified (InvalidLine i n name) = Some (name, Invalid)"
| "classified (StatusLine i n name TAKEN) = Some (name, Taken)"
| "classified (StatusLine i n name AVAILABLE) = Some (name, Available)"
| "classified l = None"

definition classifications :: "line list \<Rightarrow> (string \<times> classification) list" where
  \<comment> \<open>the per-item lines of an output, in order, as candidate and classification\<close>
  "classifications ls = List.map_filter classified ls"



fun summary_count :: "line \<Rightarrow> bool" where
  "summary_count (TotalChecked n) = True"
| "summary_count (AvailableCount n) = True"
| "summary_count (TakenCount n) = True"
| "summary_count l = False"


definition checked ::
  "('w \<Rightarrow> string \<Rightarrow> lookup \<times> 'w) \<Rightarrow> nat \<Rightarrow> nat \<Rightarrow> string \<Rightarrow> 'w run \<Rightarrow> 'w run" where
  \<comment> \<open>the state after the body of the loop for a candidate that passed the rule, up to the
      call of \<open>time.sleep\<close>\<close>
  "checked client n i name st =
     (case project_exists client (lower name) st of
        (exists, st1) \<Rightarrow>
          (let st2 = print (StatusLine i n (lower name) (if exists then TAKEN else AVAILABLE)) st1
           in if \<not> exists then st2\<lparr>available := available st2 @ [lower name]\<rparr>
              else st2\<lparr>taken := taken st2 @ [lower name]\<rparr>))"

definition before_loop :: "args \<Rightarrow> nat \<Rightarrow> 'w \<Rightarrow> 'w run" where
  \<comment> \<open>the state in which the loop starts when \<open>n\<close> candidates were loaded\<close>
  "before_loop a n w = print (Checking n) (print (Loaded n (wordlist a))
      (print_all [Banner, AuthHint, Blank] (init_run w)))"

text \<open>
  Two concrete environments. In \<open>example_env\<close> every path holds the wordlist
  \<open>ab\<close>, \<open>valid-name-1\<close>, \<open>ANOTHERNAME\<close>, and the service knows \<open>valid-name-1\<close> only.
  In \<open>two_names_env\<close> the wordlist holds two well-formed names.
\<close>

definition known_project :: "unit \<Rightarrow> string \<Rightarrow> lookup \<times> unit" where
  "known_project w req =
     (if req = ''projects/valid-name-1'' then (Found, w) else (Raised (Some 404) ''not found'', w))"

definition example_env :: "unit env" where
  "example_env = \<lparr>client_init = None,
     files = (\<lambda>path. FileText ''ab\<newline>valid-name-1\<newline>ANOTHERNAME\<newline>''),
     get_project = known_project\<rparr>"




section \<open>Lower-casing\<close>


lemmas class_defs = passes_def naming_rule_def str_isalnum_def remove_hyphens_def isalnum_def
  isalpha_def isdigit_def isnumeric_def ord_def getitem0_def

lemma example_lower:
  "lower ''valid-name-1'' = ''valid-name-1''" "lower ''ANOTHERNAME'' = ''anothername''"
  "lower ''anothername'' = ''anothername''"
  by code_simp+




section \<open>Printing and the fields of the state\<close>

lemma print_simps [simp]:
  "stdout (print l st) = stdout st @ [l]"
  "requests (print l st) = requests st"
  "available (print l st) = available st"
  "taken (print l st) = taken st"
  "world (print l st) = world st"
  by (simp_all add: print_def)

lemma print_all_fields [simp]:
  "stdout (print_all ls st) = stdout st @ ls"
  "requests (print_all ls st) = requests st"
  "available (print_all ls st) = available st"
  "taken (print_all ls st) = taken st"
  unfolding print_all_def by (induction ls arbitrary: st) simp_all

lemma init_run_fields [simp]:
  "stdout (init_run w) = []" "requests (init_run w) = []"
  "available (init_run w) = []" "taken (init_run w) = []"
  by (simp_all add: init_run_def)

lemma before_loop_fields [simp]:
  "stdout (before_loop a n w) = [Banner, AuthHint, Blank, Loaded n (wordlist a), Checking n]"
  "requests (before_loop a n w) = []"
  "available (before_loop a n w) = []"
  "taken (before_loop a n w) = []"
  by (simp_all add: before_loop_def)


section \<open>Properties of the naming rule\<close>

lemma naming_rule_spec: "naming_rule s = Inr (rule_as_specified s)"
  by (cases s) (auto simp: naming_rule_def rule_as_specified_def getitem0_def)

lemma alnum_letters_digits:
  "\<forall>c\<in>set s. isalpha c \<or> isdigit c \<or> c = CHR ''-'' \<Longrightarrow> list_all isalnum (remove_hyphens s)"
  by (induction s) (auto simp: remove_hyphens_def isalnum_def)

lemma hyphen_not_alpha: "\<not> isalpha (CHR ''-'')"
  by (simp add: isalpha_def ord_def)

lemma passes_spec: "passes name = rule_as_specified name"
  by (simp add: passes_def naming_rule_spec)

lemma naming_rule_cases: "naming_rule name = Inr (passes name)"
  by (simp add: passes_def naming_rule_spec)

lemma short_not_passes: "length name < 6 \<Longrightarrow> \<not> passes name"
  by (simp add: passes_spec rule_as_specified_def)

lemma example_passes:
  "\<not> passes ''ab''" "passes ''valid-name-1''" "passes ''ANOTHERNAME''" "passes ''anothername''"
  by (simp_all add: class_defs)

text \<open>
  C2. The validator accepts a candidate exactly when its length is between 6 and 30, the
  candidate without its hyphens is alphanumeric, and its first character is a letter. A
  candidate whose first character is not a letter is rejected; a candidate of letters, digits
  and hyphens, of a length in range and with a leading letter, is accepted.
\<close>

theorem naming_rule_iff:
  "naming_rule s = Inr (rule_as_specified s) \<and>
   (\<forall>c cs. s = c # cs \<and> \<not> isalpha c \<longrightarrow> naming_rule s = Inr False) \<and>
   ((\<forall>c\<in>set s. isalpha c \<or> isdigit c \<or> c = CHR ''-'') \<and> 6 \<le> length s \<and> length s \<le> 30 \<and>
      (\<exists>c cs. s = c # cs \<and> isalpha c) \<longrightarrow> naming_rule s = Inr True)"
proof (intro conjI allI impI)
  show "naming_rule s = Inr (rule_as_specified s)"
    by (rule naming_rule_spec)
  show "naming_rule s = Inr False" if "s = c # cs \<and> \<not> isalpha c" for c cs
    using that by (simp add: naming_rule_spec rule_as_specified_def)
  show "naming_rule s = Inr True"
    if h: "(\<forall>c\<in>set s. isalpha c \<or> isdigit c \<or> c = CHR ''-'') \<and> 6 \<le> length s \<and> length s \<le> 30 \<and>
      (\<exists>c cs. s = c # cs \<and> isalpha c)"
  proof -
    from h obtain c cs where s: "s = c # cs" and c: "isalpha c" by blast
    from c have "c \<noteq> CHR ''-''" using hyphen_not_alpha by auto
    with s have "remove_hyphens s \<noteq> []" by (simp add: remove_hyphens_def)
    moreover from h have "list_all isalnum (remove_hyphens s)" by (simp add: alnum_letters_digits)
    ultimately have "str_isalnum (remove_hyphens s)" by (simp add: str_isalnum_def)
    with h s c show ?thesis by (simp add: naming_rule_spec rule_as_specified_def)
  qed
qed

theorem naming_rule_iff_witness:
  "naming_rule ''my-app-1'' = Inr True \<and> naming_rule ''123456'' = Inr False \<and>
   naming_rule ''-my-app'' = Inr False \<and> rule_as_specified ''my-app-1''"
proof -
  have a: "(\<forall>c\<in>set ''my-app-1''. isalpha c \<or> isdigit c \<or> c = CHR ''-'') \<and>
      6 \<le> length ''my-app-1'' \<and> length ''my-app-1'' \<le> 30 \<and>
      (\<exists>c cs. ''my-app-1'' = c # cs \<and> isalpha c)"
    by (simp add: isalpha_def isdigit_def ord_def)
  have b: "''123456'' = CHR ''1'' # ''23456'' \<and> \<not> isalpha (CHR ''1'')"
    by (simp add: isalpha_def ord_def)
  have c: "''-my-app'' = CHR ''-'' # ''my-app'' \<and> \<not> isalpha (CHR ''-'')"
    by (simp add: isalpha_def ord_def)
  from a naming_rule_iff [of "''my-app-1''"] have 1: "naming_rule ''my-app-1'' = Inr True"
    by blast
  from b naming_rule_iff [of "''123456''"] have 2: "naming_rule ''123456'' = Inr False"
    by blast
  from c naming_rule_iff [of "''-my-app''"] have 3: "naming_rule ''-my-app'' = Inr False"
    by blast
  from 1 naming_rule_iff [of "''my-app-1''"] have 4: "rule_as_specified ''my-app-1''"
    by simp
  from 1 2 3 4 show ?thesis by blast
qed


section \<open>Properties of the existence checker\<close>

text \<open>
  C1. \<open>project_exists\<close> returns \<open>True\<close> exactly when the lookup succeeds. Every failing lookup
  gives \<open>False\<close>: silently when the exception carries the status 404 or 403, and after one
  logged line otherwise. The function always returns a truth value, whatever the lookup
  raised, and sends exactly one request.
\<close>

theorem project_exists_maps_errors:
  "(fst (project_exists client pid st) \<longleftrightarrow> fst (client (world st) (''projects/'' @ pid)) = Found) \<and>
   (\<forall>status e. fst (client (world st) (''projects/'' @ pid)) = Raised status e \<longrightarrow>
      \<not> fst (project_exists client pid st) \<and>
      stdout (snd (project_exists client pid st)) =
        (if status = Some 404 \<or> status = Some 403 then stdout st
         else stdout st @ [Unexpected pid e])) \<and>
   requests (snd (project_exists client pid st)) = requests st @ [''projects/'' @ pid]"
  by (auto simp: project_exists_def print_def Let_def split: prod.splits lookup.splits option.splits)

theorem project_exists_maps_errors_witness:
  "\<not> fst (project_exists (\<lambda>w r. (Raised (Some 404) ''gone'', w)) ''abcdef'' (init_run ())) \<and>
   stdout (snd (project_exists (\<lambda>w r. (Raised (Some 404) ''gone'', w)) ''abcdef'' (init_run ()))) = [] \<and>
   \<not> fst (project_exists (\<lambda>w r. (Raised (Some 403) ''denied'', w)) ''abcdef'' (init_run ())) \<and>
   \<not> fst (project_exists (\<lambda>w r. (Raised None ''timeout'', w)) ''abcdef'' (init_run ())) \<and>
   stdout (snd (project_exists (\<lambda>w r. (Raised None ''timeout'', w)) ''abcdef'' (init_run ())))
     = [Unexpected ''abcdef'' ''timeout''] \<and>
   fst (project_exists (\<lambda>w r. (Found, w)) ''abcdef'' (init_run ()))"
  using project_exists_maps_errors [of "\<lambda>w r. (Raised (Some 404) ''gone'', w)" "''abcdef''" "init_run ()"]
    project_exists_maps_errors [of "\<lambda>w r. (Raised (Some 403) ''denied'', w)" "''abcdef''" "init_run ()"]
    project_exists_maps_errors [of "\<lambda>w r. (Raised None ''timeout'', w)" "''abcdef''" "init_run ()"]
    project_exists_maps_errors [of "\<lambda>w r. (Found, w)" "''abcdef''" "init_run ()"]
  by (simp add: init_run_def)




section \<open>Properties of the loader\<close>

lemma comprehension_filter_map:
  "[f x. x \<leftarrow> xs, P (f x)] = filter P (map f xs)"
  by (induction xs) simp_all

lemma concat_split_lines: "concat (split_lines s) = s"
  by (induction s) (auto split: list.splits)

lemma split_lines_shape:
  "l \<in> set (split_lines s) \<Longrightarrow> l \<noteq> [] \<and> CHR 0x0A \<notin> set (butlast l)"
proof (induction s arbitrary: l)
  case Nil
  then show ?case by simp
next
  case (Cons c cs)
  show ?case
  proof (cases "c = CHR 0x0A")
    case True
    with Cons show ?thesis by auto
  next
    case False
    show ?thesis
    proof (cases "split_lines cs")
      case Nil
      with False Cons.prems show ?thesis by simp
    next
      case (Cons l0 ls)
      with False Cons.prems have "l = c # l0 \<or> l \<in> set ls" by simp
      then show ?thesis
      proof
        assume l: "l = c # l0"
        from Cons have "l0 \<in> set (split_lines cs)" by simp
        from Cons.IH [OF this] l False show ?thesis by simp
      next
        assume "l \<in> set ls"
        with Cons have "l \<in> set (split_lines cs)" by simp
        then show ?thesis by (rule Cons.IH)
      qed
    qed
  qed
qed

lemma split_lines_terminated:
  "l \<in> set (butlast (split_lines s)) \<Longrightarrow> last l = CHR 0x0A"
proof (induction s arbitrary: l)
  case Nil
  then show ?case by simp
next
  case (Cons c cs)
  show ?case
  proof (cases "c = CHR 0x0A")
    case True
    with Cons show ?thesis by (auto split: if_splits)
  next
    case False
    show ?thesis
    proof (cases "split_lines cs")
      case Nil
      with False Cons.prems show ?thesis by simp
    next
      case (Cons l0 ls)
      have l0: "l0 \<noteq> []" using split_lines_shape [of l0 cs] Cons by simp
      from Cons False Cons.prems have ls: "ls \<noteq> []" and "l = c # l0 \<or> l \<in> set (butlast ls)"
        by (auto split: if_splits)
      then show ?thesis
      proof (elim disjE)
        assume l: "l = c # l0"
        from Cons ls have "l0 \<in> set (butlast (split_lines cs))" by simp
        from Cons.IH [OF this] l l0 show ?thesis by simp
      next
        assume "l \<in> set (butlast ls)"
        with Cons ls have "l \<in> set (butlast (split_lines cs))" by simp
        then show ?thesis by (rule Cons.IH)
      qed
    qed
  qed
qed

lemma rev_dropWhile_split:
  "xs = rev (dropWhile P (rev xs)) @ rev (takeWhile P (rev xs))"
  by (metis rev_append rev_rev_ident takeWhile_dropWhile_id)

lemma strip_decomp:
  "\<exists>a b. l = a @ strip l @ b \<and> list_all isspace a \<and> list_all isspace b"
proof -
  let ?m = "dropWhile isspace l"
  let ?a = "takeWhile isspace l"
  let ?b = "rev (takeWhile isspace (rev ?m))"
  have "?m = strip l @ ?b"
    unfolding strip_def by (rule rev_dropWhile_split)
  then have "l = ?a @ strip l @ ?b" by (metis takeWhile_dropWhile_id)
  moreover have "list_all isspace ?a"
    by (simp add: list_all_iff) (meson set_takeWhileD)
  moreover have "list_all isspace ?b"
    by (simp add: list_all_iff) (meson set_takeWhileD)
  ultimately show ?thesis by blast
qed

lemma strip_ends:
  assumes "strip l \<noteq> []"
  shows "\<not> isspace (hd (strip l)) \<and> \<not> isspace (last (strip l))"
proof -
  let ?m = "dropWhile isspace l"
  let ?r = "dropWhile isspace (rev ?m)"
  from assms have r: "?r \<noteq> []" unfolding strip_def by (metis rev.simps(1))
  then have "\<not> isspace (hd ?r)" by (rule hd_dropWhile)
  moreover have "last (strip l) = hd ?r"
    unfolding strip_def using r by (metis last_rev rev_rev_ident)
  ultimately have last: "\<not> isspace (last (strip l))" by simp
  from r have m: "?m \<noteq> []" by (metis dropWhile.simps(1) rev.simps(1))
  then have hm: "\<not> isspace (hd ?m)" by (rule hd_dropWhile)
  have "?m = strip l @ rev (takeWhile isspace (rev ?m))"
    unfolding strip_def by (rule rev_dropWhile_split)
  with assms have "hd ?m = hd (strip l)" by (metis hd_append2)
  with hm last show ?thesis by simp
qed

lemma read_project_names_loaded:
  "read_project_names fs filename st =
     (case fs filename of
        FileText text \<Rightarrow> (Inr (loaded_names fs filename),
                           print (Loaded (length (loaded_names fs filename)) filename) st)
      | FileNotFoundError \<Rightarrow> (Inl 1, print (FileNotFound filename) st)
      | OtherError e \<Rightarrow> (Inl 1, print (ReadError e) st))"
  by (simp add: read_project_names_def loaded_names_def Let_def split: file_result.splits)

lemma loaded_names_error:
  "(case fs filename of FileText text \<Rightarrow> False | _ \<Rightarrow> True) \<Longrightarrow> loaded_names fs filename = []"
  by (simp add: read_project_names_def loaded_names_def split: file_result.splits)

lemma example_loaded:
  "loaded_names (files example_env) (wordlist default_args) = [''ab'', ''valid-name-1'', ''ANOTHERNAME'']"
  by (simp add: loaded_names_def read_project_names_def example_env_def file_lines_def strip_def
      isspace_def ord_def startswith_def)

lemma candidates_loaded:
  "candidates env a \<noteq> [] \<Longrightarrow>
   client_init env = None \<and> loaded_names (files env) (wordlist a) = candidates env a"
  by (cases "client_init env") (simp_all add: candidates_def)

lemma example_candidates:
  "candidates example_env default_args = [''ab'', ''valid-name-1'', ''ANOTHERNAME'']"
  using example_loaded by (simp add: candidates_def example_env_def)

text \<open>
  C5. For a readable file the loader returns the lines of the file in order, each stripped,
  without those that are empty once stripped and those whose stripped form starts with \<open>#\<close>.
  The lines are a division of the text (after newline translation), each ending at its first
  newline, and stripping a line removes whitespace at its two ends only, all of it. The file
  \<open>foo\n\n# comment\nbar\n\<close> gives \<open>foo\<close>, \<open>bar\<close>.
\<close>

theorem loader_keeps_trimmed_lines:
  "(fs filename = FileText content \<longrightarrow>
      fst (read_project_names fs filename st)
        = Inr (filter (\<lambda>l. l \<noteq> [] \<and> \<not> startswith l ''#'') (map strip (file_lines content))) \<and>
      stdout (snd (read_project_names fs filename st))
        = stdout st @ [Loaded (length (loaded_names fs filename)) filename]) \<and>
   concat (file_lines content) = translate_newlines content \<and>
   (\<forall>l\<in>set (file_lines content). l \<noteq> [] \<and> CHR 0x0A \<notin> set (butlast l)) \<and>
   (\<forall>l\<in>set (butlast (file_lines content)). last l = CHR 0x0A) \<and>
   (\<forall>l\<in>set (file_lines content).
      (\<exists>a b. l = a @ strip l @ b \<and> list_all isspace a \<and> list_all isspace b) \<and>
      (strip l \<noteq> [] \<longrightarrow> \<not> isspace (hd (strip l)) \<and> \<not> isspace (last (strip l)))) \<and>
   fst (read_project_names (\<lambda>path. FileText ''foo\<newline>\<newline># comment\<newline>bar\<newline>'') filename st)
     = Inr [''foo'', ''bar'']"
proof (intro conjI impI ballI)
  assume f: "fs filename = FileText content"
  then show "fst (read_project_names fs filename st)
        = Inr (filter (\<lambda>l. l \<noteq> [] \<and> \<not> startswith l ''#'') (map strip (file_lines content)))"
    using comprehension_filter_map [of "\<lambda>l. l \<noteq> [] \<and> \<not> startswith l ''#''" strip "file_lines content"]
    by (simp add: read_project_names_def)
  from f show "stdout (snd (read_project_names fs filename st))
        = stdout st @ [Loaded (length (loaded_names fs filename)) filename]"
    by (simp add: read_project_names_loaded)
next
  show "concat (file_lines content) = translate_newlines content"
    by (simp add: file_lines_def concat_split_lines)
next
  fix l
  assume "l \<in> set (file_lines content)"
  then show "l \<noteq> []" and "CHR 0x0A \<notin> set (butlast l)"
    using split_lines_shape [of l "translate_newlines content"] by (simp_all add: file_lines_def)
next
  fix l
  assume "l \<in> set (butlast (file_lines content))"
  then show "last l = CHR 0x0A"
    using split_lines_terminated [of l "translate_newlines content"] by (simp add: file_lines_def)
next
  fix l
  show "\<exists>a b. l = a @ strip l @ b \<and> list_all isspace a \<and> list_all isspace b"
    by (rule strip_decomp)
  show "\<not> isspace (hd (strip l))" if "strip l \<noteq> []"
    using strip_ends [OF that] by simp
  show "\<not> isspace (last (strip l))" if "strip l \<noteq> []"
    using strip_ends [OF that] by simp
next
  show "fst (read_project_names (\<lambda>path. FileText ''foo\<newline>\<newline># comment\<newline>bar\<newline>'') filename st)
     = Inr [''foo'', ''bar'']"
    by (simp add: read_project_names_def file_lines_def strip_def isspace_def ord_def startswith_def)
qed

theorem loader_keeps_trimmed_lines_witness:
  "fst (read_project_names (\<lambda>path. FileText '' a b \<newline>#c\<newline>'') ''w.txt'' (init_run ())) = Inr [''a b'']"
proof -
  have "file_lines '' a b \<newline>#c\<newline>'' = ['' a b \<newline>'', ''#c\<newline>'']"
    by (simp add: file_lines_def)
  moreover have "strip '' a b \<newline>'' = ''a b''" "strip ''#c\<newline>'' = ''#c''"
    by (simp_all add: strip_def isspace_def ord_def)
  ultimately show ?thesis
    using loader_keeps_trimmed_lines [of "\<lambda>path. FileText '' a b \<newline>#c\<newline>''" "''w.txt''"
        "'' a b \<newline>#c\<newline>''" "init_run ()"]
    by (simp add: startswith_def)
qed


section \<open>One iteration of the loop\<close>

lemma classifications_append [simp]:
  "classifications (xs @ ys) = classifications xs @ classifications ys"
  by (simp add: classifications_def map_filter_def)

lemma classifications_Nil [simp]: "classifications [] = []"
  by (simp add: classifications_def map_filter_def)

lemma classifications_single [simp]:
  "classifications [l] = (case classified l of None \<Rightarrow> [] | Some z \<Rightarrow> [z])"
  by (simp add: classifications_def map_filter_def split: option.splits)

lemma classifications_Cons [simp]:
  "classifications (l # ls) = (case classified l of None \<Rightarrow> [] | Some z \<Rightarrow> [z]) @ classifications ls"
  by (simp add: classifications_def map_filter_def split: option.splits)

lemma classifications_AvailableItem [simp]:
  "classifications (map AvailableItem xs) = []"
  by (induction xs) (simp_all add: classifications_def map_filter_def)

lemma counts_AvailableItem [simp]:
  "filter summary_count (map AvailableItem xs) = []"
  by (induction xs) simp_all


lemma project_exists_counts:
  "filter summary_count (stdout (snd (project_exists client pid st))) = filter summary_count (stdout st)"
  by (simp add: project_exists_def Let_def split: prod.splits lookup.splits)

lemma check_names_invalid:
  "\<not> passes name \<Longrightarrow>
   check_names client secs n i (name # rest) st =
     check_names client secs n (Suc i) rest (print (InvalidLine i n name) st)"
  by (simp add: naming_rule_cases)

lemma check_names_valid:
  "passes name \<Longrightarrow>
   check_names client secs n i (name # rest) st =
     (if secs < 0 then (Some ValueError, checked client n i name st)
      else check_names client secs n (Suc i) rest (checked client n i name st))"
  by (simp add: naming_rule_cases checked_def time_sleep_def Let_def split: prod.splits)

declare check_names.simps(2) [simp del]



lemma checked_counts:
  "filter summary_count (stdout (checked client n i name st)) = filter summary_count (stdout st)"
  using project_exists_counts [of client "lower name" st]
  by (cases "project_exists client (lower name) st") (simp add: checked_def Let_def)

lemma checked_found:
  assumes "fst (client (world st) (request_for name)) = Found"
  shows "classifications (stdout (checked client n i name st))
           = classifications (stdout st) @ [(lower name, Taken)] \<and>
         available (checked client n i name st) = available st \<and>
         taken (checked client n i name st) = taken st @ [lower name]"
  using assms
  by (cases "client (world st) (request_for name)")
     (simp add: checked_def project_exists_def request_for_def Let_def)

lemma checked_missing:
  assumes "fst (client (world st) (request_for name)) \<noteq> Found"
  shows "classifications (stdout (checked client n i name st))
           = classifications (stdout st) @ [(lower name, Available)] \<and>
         available (checked client n i name st) = available st @ [lower name] \<and>
         taken (checked client n i name st) = taken st"
proof (cases "client (world st) (request_for name)")
  case (Pair r w')
  with assms obtain status e where "r = Raised status e" by (cases r) auto
  with Pair show ?thesis
    by (simp add: checked_def project_exists_def request_for_def Let_def)
qed


section \<open>The loop\<close>

lemma check_names_completes:
  "0 \<le> secs \<Longrightarrow> fst (check_names client secs n i names st) = None"
proof (induction names arbitrary: i st)
  case Nil
  then show ?case by simp
next
  case (Cons name rest)
  show ?case
  proof (cases "passes name")
    case True
    with Cons show ?thesis by (simp add: check_names_valid)
  next
    case False
    with Cons show ?thesis by (simp add: check_names_invalid)
  qed
qed





lemma check_names_no_IndexError:
  "fst (check_names client secs n i names st) \<noteq> Some IndexError"
proof (induction names arbitrary: i st)
  case Nil
  then show ?case by simp
next
  case (Cons name rest)
  then show ?case
    by (cases "passes name") (simp_all add: check_names_invalid check_names_valid)
qed

text \<open>
  C10. The validator raises on no string: it always returns a truth value. A string shorter
  than 6 characters, the empty one included, is answered \<open>False\<close> by the length test alone,
  and wherever the length test passes the access \<open>name[0]\<close> succeeds. So the loop never
  ends in an IndexError, and a short candidate is reported invalid and the loop goes on.
\<close>

theorem naming_rule_total:
  "(\<exists>b. naming_rule s = Inr b) \<and>
   (length s < 6 \<longrightarrow> naming_rule s = Inr False) \<and>
   (6 \<le> length s \<longrightarrow> (\<exists>c. getitem0 s = Inr c)) \<and>
   naming_rule [] = Inr False \<and>
   fst (check_names client secs n i names st) \<noteq> Some IndexError \<and>
   (length s < 6 \<longrightarrow>
      check_names client secs n i (s # names) st
        = check_names client secs n (Suc i) names (print (InvalidLine i n s) st))"
proof -
  have "(\<exists>b. naming_rule s = Inr b) \<and>
   (length s < 6 \<longrightarrow> naming_rule s = Inr False) \<and>
   (6 \<le> length s \<longrightarrow> (\<exists>c. getitem0 s = Inr c)) \<and>
   naming_rule [] = Inr False"
    by (cases s) (auto simp: naming_rule_def getitem0_def)
  then show ?thesis
    using check_names_no_IndexError [of client secs n i names st]
    by (simp add: check_names_invalid short_not_passes)
qed

theorem naming_rule_total_witness:
  "naming_rule ''ab'' = Inr False \<and> naming_rule [] = Inr False \<and>
   (\<exists>c. getitem0 ''abcdef'' = Inr c) \<and>
   check_names known_project 0 1 1 ['''', ''ab''] (init_run ())
     = check_names known_project 0 1 2 [''ab''] (print (InvalidLine 1 1 '''') (init_run ()))"
proof -
  have short: "length ''ab'' < 6" "length '''' < 6" and long: "6 \<le> length ''abcdef''"
    by simp_all
  from short(1) naming_rule_total [of "''ab''" known_project 0 1 1 "[]" "init_run ()"]
  have 1: "naming_rule ''ab'' = Inr False" by blast
  from naming_rule_total [of "''ab''" known_project 0 1 1 "[]" "init_run ()"]
  have 2: "naming_rule [] = Inr False" by blast
  from long naming_rule_total [of "''abcdef''" known_project 0 1 1 "[]" "init_run ()"]
  have 3: "\<exists>c. getitem0 ''abcdef'' = Inr c" by blast
  from short(2) naming_rule_total [of "''''" known_project 0 1 1 "[''ab'']" "init_run ()"]
  have 4: "check_names known_project 0 1 1 ['''', ''ab''] (init_run ())
     = check_names known_project 0 1 (Suc 1) [''ab''] (print (InvalidLine 1 1 '''') (init_run ()))"
    by blast
  from 1 2 3 4 show ?thesis by (simp add: numeral_2_eq_2)
qed


section \<open>The whole run\<close>

lemma summary_fields:
  "stdout (summary n st) = stdout st @
     [Rule, SummaryTitle, Rule, TotalChecked n, AvailableCount (length (available st)),
      TakenCount (length (taken st))] @
     (if available st \<noteq> [] then AvailableHeader # map AvailableItem (available st)
      else [NoneAvailable])"
  "requests (summary n st) = requests st"
  "available (summary n st) = available st"
  "taken (summary n st) = taken st"
  by (simp_all add: summary_def Let_def)

lemma summary_classifications:
  "classifications (stdout (summary n st)) = classifications (stdout st)"
  by (simp add: summary_fields)

lemma summary_counts:
  "filter summary_count (stdout (summary n st)) = filter summary_count (stdout st) @
     [TotalChecked n, AvailableCount (length (available st)), TakenCount (length (taken st))]"
  by (simp add: summary_fields)


lemma main_file_failed:
  "client_init env = None \<Longrightarrow> files env (wordlist a) = FileNotFoundError \<Longrightarrow>
   main a env w = (Exit 1, print (FileNotFound (wordlist a)) (print_all [Banner, AuthHint, Blank] (init_run w)))"
  "client_init env = None \<Longrightarrow> files env (wordlist a) = OtherError e \<Longrightarrow>
   main a env w = (Exit 1, print (ReadError e) (print_all [Banner, AuthHint, Blank] (init_run w)))"
  by (simp_all add: main_def read_project_names_loaded)


lemma main_loop:
  "client_init env = None \<Longrightarrow> loaded_names (files env) (wordlist a) = names \<Longrightarrow> names \<noteq> [] \<Longrightarrow>
   main a env w =
     (case check_names (get_project env) (delay a) (length names) 1 names
             (before_loop a (length names) w) of
        (Some e, st3) \<Rightarrow> (Uncaught e, st3)
      | (None, st3) \<Rightarrow> (Returned, summary (length names) st3))"
  by (cases "files env (wordlist a)")
     (auto simp: main_def read_project_names_loaded before_loop_def loaded_names_error)

lemma main_completes:
  assumes "0 \<le> delay a" "client_init env = None"
    "loaded_names (files env) (wordlist a) = names" "names \<noteq> []"
  shows "main a env w =
     (Returned, summary (length names)
        (snd (check_names (get_project env) (delay a) (length names) 1 names
               (before_loop a (length names) w))))"
proof -
  obtain r st3 where c: "check_names (get_project env) (delay a) (length names) 1 names
               (before_loop a (length names) w) = (r, st3)" by fastforce
  with check_names_completes [OF assms(1), of "get_project env" "length names" 1 names
      "before_loop a (length names) w"]
  have "r = None" by simp
  with c main_loop [OF assms(2-4), of w] show ?thesis by simp
qed




text \<open>
  C8. When the wordlist does not exist the loader prints the line naming the file and exits
  with status 1; any other failure to read it prints its own line and exits with status 1
  too. Seen from \<open>main\<close>, the process ends there with that status, and nothing is printed
  after the diagnostic.
\<close>

theorem loader_failures_are_fatal:
  "(fs filename = FileNotFoundError \<longrightarrow>
      read_project_names fs filename st = (Inl 1, print (FileNotFound filename) st)) \<and>
   (fs filename = OtherError e \<longrightarrow>
      read_project_names fs filename st = (Inl 1, print (ReadError e) st)) \<and>
   (client_init env = None \<and> files env (wordlist a) = FileNotFoundError \<longrightarrow>
      fst (main a env w) = Exit 1 \<and> exit_status (fst (main a env w)) \<noteq> 0 \<and>
      stdout (snd (main a env w)) = [Banner, AuthHint, Blank, FileNotFound (wordlist a)]) \<and>
   (client_init env = None \<and> files env (wordlist a) = OtherError e \<longrightarrow>
      fst (main a env w) = Exit 1 \<and> exit_status (fst (main a env w)) \<noteq> 0 \<and>
      stdout (snd (main a env w)) = [Banner, AuthHint, Blank, ReadError e])"
  by (simp add: main_file_failed read_project_names_loaded)

theorem loader_failures_are_fatal_witness:
  "read_project_names (\<lambda>path. FileNotFoundError) ''missing.txt'' (init_run ())
     = (Inl 1, print (FileNotFound ''missing.txt'') (init_run ())) \<and>
   read_project_names (\<lambda>path. OtherError ''Permission denied'') ''secret.txt'' (init_run ())
     = (Inl 1, print (ReadError ''Permission denied'') (init_run ())) \<and>
   exit_status (fst (main default_args (example_env\<lparr>files := \<lambda>path. FileNotFoundError\<rparr>) ())) \<noteq> 0 \<and>
   stdout (snd (main default_args (example_env\<lparr>files := \<lambda>path. FileNotFoundError\<rparr>) ()))
     = [Banner, AuthHint, Blank, FileNotFound ''project-names.txt'']"
proof -
  let ?nofile = "example_env\<lparr>files := \<lambda>path. FileNotFoundError\<rparr>"
  have c: "client_init ?nofile = None \<and> files ?nofile (wordlist default_args) = FileNotFoundError"
    by (simp add: example_env_def)
  from loader_failures_are_fatal [of "\<lambda>path. FileNotFoundError" "''missing.txt''" "init_run ()"
      "''Permission denied''" ?nofile default_args "()"]
  have 1: "read_project_names (\<lambda>path. FileNotFoundError) ''missing.txt'' (init_run ())
     = (Inl 1, print (FileNotFound ''missing.txt'') (init_run ()))" by simp
  from loader_failures_are_fatal [of "\<lambda>path. OtherError ''Permission denied''" "''secret.txt''"
      "init_run ()" "''Permission denied''" ?nofile default_args "()"]
  have 2: "read_project_names (\<lambda>path. OtherError ''Permission denied'') ''secret.txt'' (init_run ())
     = (Inl 1, print (ReadError ''Permission denied'') (init_run ()))" by simp
  from c loader_failures_are_fatal [of "\<lambda>path. FileNotFoundError" "''missing.txt''" "init_run ()"
      "''Permission denied''" ?nofile default_args "()"]
  have 3: "exit_status (fst (main default_args ?nofile ())) \<noteq> 0 \<and>
    stdout (snd (main default_args ?nofile ())) = [Banner, AuthHint, Blank, FileNotFound (wordlist default_args)]"
    by blast
  from 1 2 3 show ?thesis by (simp add: default_args_def DEFAULT_WORDLIST_def)
qed







text \<open>
  C6. With the wordlist \<open>ab\<close>, \<open>valid-name-1\<close>, \<open>ANOTHERNAME\<close>, the default delay, and a
  service where the lookup of \<open>valid-name-1\<close> succeeds and the lookup of \<open>anothername\<close> fails,
  the run classifies \<open>ab\<close> (two characters) as invalid, \<open>valid-name-1\<close> as taken and
  \<open>anothername\<close> as available, and the summary reports 3 checked, 1 available, 1 taken.
\<close>

theorem end_to_end_example:
  assumes "candidates env a = [''ab'', ''valid-name-1'', ''ANOTHERNAME'']"
    and "delay a = delay default_args"
    and "\<forall>w. fst (get_project env w ''projects/valid-name-1'') = Found"
    and "\<forall>w. fst (get_project env w ''projects/anothername'') \<noteq> Found"
  shows "fst (main a env w) = Returned \<and>
    classifications (stdout (snd (main a env w)))
      = [(''ab'', Invalid), (''valid-name-1'', Taken), (''anothername'', Available)] \<and>
    length ''ab'' < 6 \<and>
    filter summary_count (stdout (snd (main a env w)))
      = [TotalChecked 3, AvailableCount 1, TakenCount 1]"
proof -
  let ?c = "get_project env"
  let ?names = "[''ab'', ''valid-name-1'', ''ANOTHERNAME'']"
  let ?st0 = "before_loop a 3 w"
  let ?st1 = "print (InvalidLine 1 3 ''ab'') ?st0"
  let ?st2 = "checked ?c 3 2 ''valid-name-1'' ?st1"
  let ?st3 = "checked ?c 3 3 ''ANOTHERNAME'' ?st2"
  from assms(1) candidates_loaded [of env a]
  have cl: "client_init env = None" and ld: "loaded_names (files env) (wordlist a) = ?names"
    by simp_all
  have d: "0 \<le> delay a" using assms(2) by (simp add: default_args_def)
  have loop: "check_names ?c (delay a) 3 1 ?names ?st0 = (None, ?st3)"
    using d by (simp add: check_names_invalid check_names_valid example_passes eval_nat_numeral)
  have len: "length ?names = 3" by simp
  have m: "main a env w = (Returned, summary 3 ?st3)"
    using main_completes [OF d cl ld, of w] loop unfolding len by simp
  have r2: "fst (?c (world ?st1) (request_for ''valid-name-1'')) = Found"
    using assms(3) by (simp add: request_for_def example_lower)
  have r3: "fst (?c (world ?st2) (request_for ''ANOTHERNAME'')) \<noteq> Found"
    using assms(4) by (simp add: request_for_def example_lower)
  note s2 = checked_found [of ?c ?st1 "''valid-name-1''" 3 2, OF r2]
  note s3 = checked_missing [of ?c ?st2 "''ANOTHERNAME''" 3 3, OF r3]
  have cls: "classifications (stdout ?st3)
      = [(''ab'', Invalid), (''valid-name-1'', Taken), (''anothername'', Available)]"
    using s2 s3 by (simp add: example_lower)
  have av: "available ?st3 = [''anothername'']" and tk: "taken ?st3 = [''valid-name-1'']"
    using s2 s3 by (simp_all add: example_lower)
  have cnt: "filter summary_count (stdout ?st3) = []"
    by (simp add: checked_counts)
  show ?thesis
    using cls av tk cnt by (simp add: m summary_classifications summary_counts)
qed

theorem end_to_end_example_witness:
  "candidates example_env default_args = [''ab'', ''valid-name-1'', ''ANOTHERNAME''] \<and>
   fst (main default_args example_env ()) = Returned \<and>
   classifications (stdout (snd (main default_args example_env ())))
      = [(''ab'', Invalid), (''valid-name-1'', Taken), (''anothername'', Available)] \<and>
   filter summary_count (stdout (snd (main default_args example_env ())))
      = [TotalChecked 3, AvailableCount 1, TakenCount 1]"
proof -
  have 4: "\<forall>w. fst (get_project example_env w ''projects/valid-name-1'') = Found"
    by (simp add: example_env_def known_project_def)
  have 5: "\<forall>w. fst (get_project example_env w ''projects/anothername'') \<noteq> Found"
    by (simp add: example_env_def known_project_def)
  from end_to_end_example [OF example_candidates refl 4 5, of "()"] example_candidates
  show ?thesis by simp
qed




end
